theory Spec2Isabelle
  imports Complex_Main
begin

section \<open>Python strings\<close>

text \<open>
  A Python \<open>str\<close> is modelled as a \<open>string\<close>, one \<open>char\<close> for each character of
  the text, so that \<open>length\<close> is Python's \<open>len\<close>. The characters a \<open>char\<close> can stand
  for are the code points 0 to 255.
\<close>

definition nl :: char where
  "nl = CHR 0x0A"

text \<open>
  \<open>s.split('\n')\<close>: never the empty list; the empty text has the one line \<open>''''\<close>.
  (The last case of the second equation never arises, since the split of the rest is
  not empty.)
\<close>

fun split_nl :: "string \<Rightarrow> string list" where
  "split_nl [] = [[]]"
| "split_nl (c # cs) =
     (if c = nl then [] # split_nl cs
      else (case split_nl cs of l # ls \<Rightarrow> (c # l) # ls | [] \<Rightarrow> [[c]]))"

text \<open>\<open>'\n'.join(xs)\<close>.\<close>

fun join_nl :: "string list \<Rightarrow> string" where
  "join_nl [] = []"
| "join_nl [x] = x"
| "join_nl (x # y # ys) = x @ nl # join_nl (y # ys)"

text \<open>
  \<open>xs[a:b]\<close> for integers \<open>a\<close> and \<open>b\<close>: a negative bound counts from the end, and
  both bounds are clipped to the list.
\<close>

definition py_slice :: "'a list \<Rightarrow> int \<Rightarrow> int \<Rightarrow> 'a list" where
  "py_slice xs a b =
     (let n = int (length xs);
          a' = (if a < 0 then max 0 (n + a) else min a n);
          b' = (if b < 0 then max 0 (n + b) else min b n)
      in take (nat (b' - a')) (drop (nat a') xs))"

text \<open>\<open>str(n)\<close> for an integer: its decimal digits, with a sign when negative.\<close>

definition digit_char :: "nat \<Rightarrow> char" where
  "digit_char d = char_of (48 + d)"

fun str_nat :: "nat \<Rightarrow> string" where
  "str_nat n = (if n < 10 then [digit_char n] else str_nat (n div 10) @ [digit_char (n mod 10)])"

declare str_nat.simps [simp del]

definition str_int :: "int \<Rightarrow> string" where
  "str_int i = (if i < 0 then CHR ''-'' # str_nat (nat (- i)) else str_nat (nat i))"

section \<open>TokenEstimator\<close>

text \<open>
  The estimator holds the tiktoken encoder when the library could be loaded, and
  \<open>None\<close> otherwise. The encoder itself is outside the repository: it is taken as
  a total function from a text to its token list (a call of the library that raises
  is not modelled).
\<close>

record TokenEstimator =
  encoder :: "(string \<Rightarrow> nat list) option"

definition estimate_tokens :: "TokenEstimator \<Rightarrow> string \<Rightarrow> int" where
  "estimate_tokens self text_in =
     (case encoder self of
        Some enc \<Rightarrow> int (length (enc text_in))
      | None \<Rightarrow> int (length text_in) div 4)"

section \<open>ChunkIdentity\<close>

text \<open>
  \<open>hashlib.sha1(s.encode()).hexdigest()\<close> is the standard library's; the two
  functions of the repository take it as the parameter \<open>sha1_hexdigest\<close>.
\<close>

definition create_chunk_id ::
  "(string \<Rightarrow> string) \<Rightarrow> string \<Rightarrow> int \<Rightarrow> int \<Rightarrow> string \<Rightarrow> string" where
  "create_chunk_id sha1_hexdigest filepath start_line_in end_line_in text_in =
     (let content = filepath @ '':'' @ str_int start_line_in @ '':'' @ str_int end_line_in
                      @ '':'' @ text_in
      in ''sha1:'' @ sha1_hexdigest content)"

definition create_code_fingerprint ::
  "(string \<Rightarrow> string) \<Rightarrow> string \<Rightarrow> int \<Rightarrow> int \<Rightarrow> string \<Rightarrow> string" where
  "create_code_fingerprint sha1_hexdigest filepath start_line_in end_line_in text_in =
     (let content = filepath @ '':'' @ str_int start_line_in @ '':'' @ str_int end_line_in
                      @ '':'' @ text_in
      in sha1_hexdigest content)"

text \<open>The digest input as the specification writes it: path ":" start ":" end ":" text.\<close>

definition spec_digest_input :: "string \<Rightarrow> int \<Rightarrow> int \<Rightarrow> string \<Rightarrow> string" where
  "spec_digest_input path start end' txt =
     path @ [CHR '':''] @ str_int start @ [CHR '':''] @ str_int end' @ [CHR '':''] @ txt"

section \<open>Chunks and the chunker's configuration\<close>

text \<open>
  A candidate chunk is a Python dict with the keys \<open>type\<close>, \<open>name\<close>, \<open>start_line\<close>,
  \<open>end_line\<close>, \<open>text\<close> and \<open>capture_name\<close>; the key \<open>parser_fallback\<close> is present
  on fallback and merged chunks only (\<open>None\<close> is the absent key).
\<close>

record chunk =
  chunk_type :: string
  chunk_name :: string
  start_line :: int
  end_line :: int
  chunk_text :: string
  capture_name :: string
  parser_fallback :: "bool option"

text \<open>
  What the code reads of a Tree-sitter node: its type, the rows of its start and end
  points, and its text when the node has the attribute.
\<close>

record ts_node =
  node_type :: string
  start_point_row :: int
  end_point_row :: int
  node_text :: "string option"

text \<open>
  The chunker. Tree-sitter is a library outside the repository: \<open>parsers\<close> maps a
  language to its parser (\<open>None\<close> as the result of a parse that raises), \<open>queries\<close>
  holds the query texts that were loaded, and \<open>run_query\<close> stands for
  \<open>tree.query(q).captures(tree.root_node)\<close> (\<open>None\<close> when it raises). The list
  \<open>parse_errors\<close> of diagnostics is only appended to and never read by the chunking
  code; it is left out.
\<close>

record 'tree TreeSitterChunker =
  max_tokens :: int
  min_tokens :: int
  overlap_tokens :: int
  token_estimator :: TokenEstimator
  parsers :: "string \<rightharpoonup> (string \<Rightarrow> 'tree option)"
  queries :: "string \<rightharpoonup> string"
  run_query :: "'tree \<Rightarrow> string \<Rightarrow> (ts_node \<times> string) list option"

section \<open>LanguageClassifier\<close>

definition ascii_lower :: "char \<Rightarrow> char" where
  "ascii_lower c =
     (let n = (of_char c :: nat) in if 65 \<le> n \<and> n \<le> 90 then char_of (n + 32) else c)"

text \<open>
  \<open>Path(filepath).suffix\<close> on a POSIX path. The path is cut at its separators; empty
  components (doubled or trailing separators) and the components \<open>.\<close> are dropped, and
  the name is the last component left (the empty string when none is). The suffix of
  the name starts at its last dot when that dot is neither its first nor its last
  character.
\<close>

fun path_components :: "string \<Rightarrow> string list" where
  "path_components [] = [[]]"
| "path_components (c # cs) =
     (if c = CHR ''/'' then [] # path_components cs
      else (case path_components cs of p # ps \<Rightarrow> (c # p) # ps | [] \<Rightarrow> [[c]]))"

definition path_name :: "string \<Rightarrow> string" where
  "path_name filepath =
     (case rev (filter (\<lambda>p. p \<noteq> [] \<and> p \<noteq> ''.'') (path_components filepath)) of
        [] \<Rightarrow> []
      | name # _ \<Rightarrow> name)"

definition path_suffix :: "string \<Rightarrow> string" where
  "path_suffix filepath =
     (let name = path_name filepath;
          after = rev (takeWhile (\<lambda>c. c \<noteq> CHR ''.'') (rev name))
      in if CHR ''.'' \<in> set name \<and> after \<noteq> [] \<and> length after + 1 < length name
         then CHR ''.'' # after else [])"

text \<open>
  \<open>suffix.lower()\<close> is compared with ASCII extensions only; no character above ASCII
  lowers to an ASCII letter, so lowering the ASCII letters decides the comparison.
\<close>

definition get_language :: "string \<Rightarrow> string" where
  "get_language filepath =
     (let ext = map ascii_lower (path_suffix filepath)
      in if ext = ''.py'' then ''python''
         else if ext = ''.js'' then ''javascript''
         else if ext = ''.ts'' then ''typescript''
         else if ext = ''.jsx'' then ''javascript''
         else if ext = ''.tsx'' then ''typescript''
         else if ext = ''.java'' then ''java''
         else ''unknown'')"

section \<open>StructuralParser\<close>

definition parse_with_tree_sitter ::
  "'tree TreeSitterChunker \<Rightarrow> string \<Rightarrow> string \<Rightarrow> 'tree option" where
  "parse_with_tree_sitter self content language =
     (case (parsers self language, queries self language) of
        (Some parser, Some _) \<Rightarrow> parser content
      | _ \<Rightarrow> None)"

definition extract_node_name :: "ts_node \<Rightarrow> string \<Rightarrow> string" where
  "extract_node_name node cap = (if cap \<noteq> [] then cap else node_type node)"

definition node_chunk :: "ts_node \<times> string \<Rightarrow> chunk" where
  "node_chunk nc =
     (case nc of (node, cap) \<Rightarrow>
        \<lparr>chunk_type = node_type node,
         chunk_name = extract_node_name node cap,
         start_line = start_point_row node + 1,
         end_line = end_point_row node + 1,
         chunk_text = (case node_text node of Some t \<Rightarrow> t | None \<Rightarrow> []),
         capture_name = cap,
         parser_fallback = None\<rparr>)"

definition extract_nodes_with_query ::
  "'tree TreeSitterChunker \<Rightarrow> 'tree \<Rightarrow> string \<Rightarrow> chunk list" where
  "extract_nodes_with_query self tree language =
     (case queries self language of
        None \<Rightarrow> []
      | Some q \<Rightarrow>
          (case run_query self tree q of
             None \<Rightarrow> []
           | Some caps \<Rightarrow>
               map node_chunk
                 (filter (\<lambda>nc. node_type (fst nc) \<notin> {''comment'', ''line_comment'', ''block_comment''})
                    caps)))"

section \<open>FallbackSegmenter\<close>

definition block_chunk :: "nat \<Rightarrow> int \<Rightarrow> int \<Rightarrow> string list \<Rightarrow> chunk" where
  "block_chunk n_chunks first_line last_line current_chunk =
     \<lparr>chunk_type = ''block'',
      chunk_name = ''block_'' @ str_int (int n_chunks + 1),
      start_line = first_line,
      end_line = last_line,
      chunk_text = join_nl current_chunk,
      capture_name = ''fallback'',
      parser_fallback = Some True\<rparr>"

text \<open>
  The loop \<open>for i, line in enumerate(lines, 1)\<close>: the state is the triple of \<open>chunks\<close>,
  \<open>current_chunk\<close> and \<open>current_tokens\<close>.
\<close>

fun fallback_loop ::
  "'tree TreeSitterChunker \<Rightarrow> string list \<Rightarrow> int \<Rightarrow> chunk list \<times> string list \<times> int
     \<Rightarrow> chunk list \<times> string list \<times> int" where
  "fallback_loop self [] i st = st"
| "fallback_loop self (line # rest) i (chunks, current_chunk, current_tokens) =
     (let line_tokens = estimate_tokens (token_estimator self) line
      in if current_tokens + line_tokens > max_tokens self \<and> current_chunk \<noteq> []
         then fallback_loop self rest (i + 1)
                (chunks @ [block_chunk (length chunks) (i - int (length current_chunk)) (i - 1)
                             current_chunk],
                 [line], line_tokens)
         else fallback_loop self rest (i + 1)
                (chunks, current_chunk @ [line], current_tokens + line_tokens))"

definition fallback_chunking :: "'tree TreeSitterChunker \<Rightarrow> string \<Rightarrow> string \<Rightarrow> chunk list" where
  "fallback_chunking self content filepath =
     (let lines = split_nl content
      in case fallback_loop self lines 1 ([], [], 0) of
           (chunks, current_chunk, current_tokens) \<Rightarrow>
             if current_chunk \<noteq> []
             then chunks @ [block_chunk (length chunks)
                              (int (length lines) - int (length current_chunk) + 1)
                              (int (length lines)) current_chunk]
             else chunks)"

section \<open>ChunkNormalizer\<close>

definition get_parser_fallback :: "chunk \<Rightarrow> bool" where
  "get_parser_fallback c = (case parser_fallback c of Some b \<Rightarrow> b | None \<Rightarrow> False)"

definition merged_chunk :: "chunk \<Rightarrow> chunk \<Rightarrow> chunk" where
  "merged_chunk current next_chunk =
     \<lparr>chunk_type = ''merged'',
      chunk_name = chunk_name current @ ''_merged_'' @ chunk_name next_chunk,
      start_line = start_line current,
      end_line = end_line next_chunk,
      chunk_text = chunk_text current @ nl # chunk_text next_chunk,
      capture_name = ''merged'',
      parser_fallback = Some (get_parser_fallback current \<or> get_parser_fallback next_chunk)\<rparr>"

text \<open>The loop \<open>while i < len(chunks)\<close>, with the index \<open>i\<close> and the list \<open>merged\<close>.\<close>

function merge_loop ::
  "'tree TreeSitterChunker \<Rightarrow> chunk list \<Rightarrow> nat \<Rightarrow> chunk list \<Rightarrow> chunk list" where
  "merge_loop self chunks i merged =
     (if i < length chunks then
        (let current = chunks ! i;
             current_tokens = estimate_tokens (token_estimator self) (chunk_text current)
         in if current_tokens < min_tokens self \<and> int i < int (length chunks) - 1
               \<and> current_tokens
                    + estimate_tokens (token_estimator self) (chunk_text (chunks ! (i + 1)))
                  \<le> max_tokens self
            then merge_loop self chunks (i + 2) (merged @ [merged_chunk current (chunks ! (i + 1))])
            else merge_loop self chunks (i + 1) (merged @ [current]))
      else merged)"
  by pat_completeness auto
termination
  by (relation "measure (\<lambda>(self, chunks, i, merged). length chunks - i)") auto

declare merge_loop.simps [simp del]

definition merge_small_chunks :: "'tree TreeSitterChunker \<Rightarrow> chunk list \<Rightarrow> chunk list" where
  "merge_small_chunks self chunks =
     (if chunks = [] then chunks else merge_loop self chunks 0 [])"

section \<open>OverlapInjector\<close>

text \<open>
  The loop body of \<open>_add_overlap\<close> for the index \<open>i\<close>. The dicts of the list are
  changed in place, so the body reads the neighbours from the list as the earlier
  iterations left it and writes the chunk back at \<open>i\<close>. (The entries of a list built by
  the segmenter, the parser or the normalizer are distinct objects.)
\<close>

definition overlap_step ::
  "'tree TreeSitterChunker \<Rightarrow> string list \<Rightarrow> nat \<Rightarrow> chunk list \<Rightarrow> chunk list" where
  "overlap_step self lines i chunks =
     (let chunk0 = chunks ! i;
          chunk1 =
            (if i > 0 then
               (let prev_chunk = chunks ! (i - 1);
                    prev_end = end_line prev_chunk;
                    overlap_start = max 0 (prev_end - overlap_tokens self div 4);
                    overlap_lines = py_slice lines overlap_start prev_end;
                    overlap_text = join_nl overlap_lines
                in chunk0\<lparr>chunk_text := overlap_text @ nl # chunk_text chunk0,
                          start_line := overlap_start + 1\<rparr>)
             else chunk0);
          chunk2 =
            (if int i < int (length chunks) - 1 then
               (let next_chunk = chunks ! (i + 1);
                    next_start = start_line next_chunk - 1;
                    overlap_end = min (int (length lines)) (next_start + overlap_tokens self div 4);
                    overlap_lines = py_slice lines next_start overlap_end;
                    overlap_text = join_nl overlap_lines
                in chunk1\<lparr>chunk_text := chunk_text chunk1 @ nl # overlap_text,
                          end_line := overlap_end\<rparr>)
             else chunk1)
      in chunks[i := chunk2])"

definition add_overlap :: "'tree TreeSitterChunker \<Rightarrow> chunk list \<Rightarrow> string \<Rightarrow> chunk list" where
  "add_overlap self chunks content =
     (if length chunks \<le> 1 then chunks
      else fold (overlap_step self (split_nl content)) [0..<length chunks] chunks)"

section \<open>ChunkingPipeline\<close>

definition chunk_file :: "'tree TreeSitterChunker \<Rightarrow> string \<Rightarrow> string \<Rightarrow> chunk list" where
  "chunk_file self filepath content =
     (let language = get_language filepath;
          tree = parse_with_tree_sitter self content language;
          nodes0 = (case tree of Some t \<Rightarrow> extract_nodes_with_query self t language | None \<Rightarrow> []);
          nodes1 = (if nodes0 = [] then fallback_chunking self content filepath else nodes0);
          nodes2 = merge_small_chunks self nodes1;
          nodes3 = add_overlap self nodes2 content
      in nodes3)"

section \<open>MetadataEnricher\<close>

text \<open>
  \<open>str.isspace\<close> on the code points below 256: tab to carriage return, the four
  separators 0x1C to 0x1F, the space, NEL (0x85) and the no-break space (0xA0).
\<close>

definition is_space :: "char \<Rightarrow> bool" where
  "is_space c =
     (let n = (of_char c :: nat)
      in (9 \<le> n \<and> n \<le> 13) \<or> (28 \<le> n \<and> n \<le> 32) \<or> n = 133 \<or> n = 160)"

text \<open>\<open>s.strip()\<close>: the white space is taken off both ends.\<close>

definition lstrip :: "string \<Rightarrow> string" where
  "lstrip s = dropWhile is_space s"

definition rstrip :: "string \<Rightarrow> string" where
  "rstrip s = rev (dropWhile is_space (rev s))"

definition strip :: "string \<Rightarrow> string" where
  "strip s = rstrip (lstrip s)"

text \<open>\<open>s.startswith(p)\<close>.\<close>

definition startswith :: "string \<Rightarrow> string \<Rightarrow> bool" where
  "startswith s p = (take (length p) s = p)"

text \<open>
  \<open>str.title()\<close> is Python's; \<open>generate_summary\<close> takes it as the parameter
  \<open>str_title\<close>. What it returns on a string of ASCII characters is computed by
  \<open>title_ascii\<close>: a letter that follows a letter is lowered, a letter that does not is
  raised, and every other character is kept. On a string with a character above ASCII
  \<open>title_ascii\<close> is \<open>None\<close>: the model does not say what the library returns there.
  \<open>ascii_title\<close> is \<open>title_ascii\<close> as a function, for the concrete runs on ASCII
  kinds; its value on any other string is left unspecified.
\<close>

definition is_ascii :: "char \<Rightarrow> bool" where
  "is_ascii c = ((of_char c :: nat) < 128)"

definition is_ascii_lower :: "char \<Rightarrow> bool" where
  "is_ascii_lower c = (let n = (of_char c :: nat) in 97 \<le> n \<and> n \<le> 122)"

definition is_ascii_upper :: "char \<Rightarrow> bool" where
  "is_ascii_upper c = (let n = (of_char c :: nat) in 65 \<le> n \<and> n \<le> 90)"

definition ascii_upper :: "char \<Rightarrow> char" where
  "ascii_upper c = (if is_ascii_lower c then char_of ((of_char c :: nat) - 32) else c)"

fun title_loop :: "bool \<Rightarrow> string \<Rightarrow> string" where
  "title_loop previous_is_cased [] = []"
| "title_loop previous_is_cased (c # cs) =
     (if is_ascii_lower c \<or> is_ascii_upper c
      then (if previous_is_cased then ascii_lower c else ascii_upper c) # title_loop True cs
      else c # title_loop False cs)"

definition title_ascii :: "string \<Rightarrow> string option" where
  "title_ascii s = (if list_all is_ascii s then Some (title_loop False s) else None)"

definition ascii_title :: "string \<Rightarrow> string" where
  "ascii_title s = the (title_ascii s)"

definition generate_summary :: "(string \<Rightarrow> string) \<Rightarrow> string \<Rightarrow> string \<Rightarrow> string" where
  "generate_summary str_title text_in node_type_in =
     (let lines = split_nl (strip text_in);
          first_line = (case lines of [] \<Rightarrow> [] | l # _ \<Rightarrow> strip l)
      in if node_type_in \<in> {''function'', ''method''}
         then ''Function: '' @ take 100 first_line @ ''...''
         else if node_type_in \<in> {''class''}
         then ''Class: '' @ take 100 first_line @ ''...''
         else if node_type_in \<in> {''import'', ''import_statement''}
         then ''Import: '' @ first_line
         else str_title node_type_in @ '': '' @ take 100 first_line @ ''...'')"

definition is_import_line :: "string \<Rightarrow> string \<Rightarrow> bool" where
  "is_import_line language line =
     (if language = ''python''
      then startswith line ''import '' \<or> startswith line ''from ''
      else if language \<in> {''javascript'', ''typescript''}
      then startswith line ''import '' \<or> startswith line ''require(''
      else if language = ''java''
      then startswith line ''import ''
      else False)"

definition extract_imports :: "string \<Rightarrow> string \<Rightarrow> string list" where
  "extract_imports text_in language =
     filter (is_import_line language) (map strip (split_nl text_in))"

text \<open>
  The summary as the specification words it: the label of the kind, then the first
  non-empty line of the text cut to 100 characters. \<open>capitalize\<close> raises the first
  letter and lowers the others (on the letters of ASCII; it is applied to ASCII kinds
  only).
\<close>

definition spec_first_nonempty_line :: "string \<Rightarrow> string" where
  "spec_first_nonempty_line txt =
     (case filter (\<lambda>l. l \<noteq> []) (split_nl txt) of [] \<Rightarrow> [] | l # _ \<Rightarrow> l)"

definition capitalize :: "string \<Rightarrow> string" where
  "capitalize s = (case s of [] \<Rightarrow> [] | c # cs \<Rightarrow> ascii_upper c # map ascii_lower cs)"

definition spec_label :: "string \<Rightarrow> string" where
  "spec_label kind =
     (if kind \<in> {''function'', ''method''} then ''Function:''
      else if kind = ''class'' then ''Class:''
      else if kind \<in> {''import'', ''import_statement''} then ''Import:''
      else capitalize kind @ '':'')"

definition spec_summary :: "string \<Rightarrow> string \<Rightarrow> string" where
  "spec_summary txt kind =
     spec_label kind @ '' '' @ take 100 (spec_first_nonempty_line txt)"

text \<open>
  The line the code takes: the first line of the text that has a character other than
  white space, without the white space around it; the empty string when there is none.
\<close>

definition first_nonblank_line :: "string \<Rightarrow> string" where
  "first_nonblank_line txt =
     (case filter (\<lambda>l. \<not> list_all is_space l) (split_nl txt) of
        [] \<Rightarrow> []
      | l # _ \<Rightarrow> strip l)"

section \<open>RepoChunker\<close>

text \<open>
  One line of \<open>chunks.jsonl\<close>, before \<open>json.dumps\<close>. The key \<open>parser_fallback\<close> is
  written only when the chunk carries a true flag; \<open>cd_parser_fallback\<close> says whether
  it is there.
\<close>

record chunk_data =
  cd_id :: string
  cd_filepath :: string
  cd_language :: string
  cd_node_type :: string
  cd_start_line :: int
  cd_end_line :: int
  cd_text :: string
  cd_summary :: string
  cd_tokens_estimate :: int
  cd_parents :: "string list"
  cd_imports :: "string list"
  cd_examples :: "string list"
  cd_code_fingerprint :: string
  cd_last_modified :: string
  cd_parser_fallback :: bool

text \<open>
  The counters of \<open>self.stats\<close> (\<open>avg_chunk_tokens\<close> and \<open>timestamp\<close>, which
  \<open>process_file\<close> does not touch, are left out).
\<close>

record ProcessingStats =
  scanned_folders :: int
  total_files :: int
  parsed_files :: int
  failed_files :: int
  total_chunks :: int
  chunks_by_language :: "string \<rightharpoonup> int"

text \<open>
  The repository chunker: its chunker, its counters and what has been appended to
  \<open>chunks.jsonl\<close> so far.
\<close>

record 'tree RepoChunker =
  chunker :: "'tree TreeSitterChunker"
  stats :: ProcessingStats
  chunks_jsonl :: "chunk_data list"

definition new_RepoChunker :: "'tree TreeSitterChunker \<Rightarrow> 'tree RepoChunker" where
  "new_RepoChunker c =
     \<lparr>chunker = c,
      stats = \<lparr>scanned_folders = 0, total_files = 0, parsed_files = 0, failed_files = 0,
               total_chunks = 0, chunks_by_language = Map.empty\<rparr>,
      chunks_jsonl = []\<rparr>"

definition write_chunk ::
  "(string \<Rightarrow> string) \<Rightarrow> (string \<Rightarrow> string) \<Rightarrow> string \<Rightarrow> string \<Rightarrow> string \<Rightarrow> chunk \<Rightarrow> 'tree RepoChunker
     \<Rightarrow> 'tree RepoChunker" where
  "write_chunk sha1_hexdigest str_title filepath language last_modified c self =
     (let chunk_id = create_chunk_id sha1_hexdigest filepath (start_line c) (end_line c)
                       (chunk_text c);
          tokens_estimate = estimate_tokens (token_estimator (chunker self)) (chunk_text c);
          stats1 = (stats self)\<lparr>total_chunks := total_chunks (stats self) + 1\<rparr>;
          chunk_data =
            \<lparr>cd_id = chunk_id,
             cd_filepath = filepath,
             cd_language = language,
             cd_node_type = chunk_type c,
             cd_start_line = start_line c,
             cd_end_line = end_line c,
             cd_text = chunk_text c,
             cd_summary = generate_summary str_title (chunk_text c) (chunk_type c),
             cd_tokens_estimate = tokens_estimate,
             cd_parents = [],
             cd_imports = extract_imports (chunk_text c) language,
             cd_examples = [],
             cd_code_fingerprint =
               create_code_fingerprint sha1_hexdigest filepath (start_line c) (end_line c)
                 (chunk_text c),
             cd_last_modified = last_modified,
             cd_parser_fallback = (parser_fallback c = Some True)\<rparr>
      in self\<lparr>stats := stats1, chunks_jsonl := chunks_jsonl self @ [chunk_data]\<rparr>)"

definition write_chunks ::
  "(string \<Rightarrow> string) \<Rightarrow> (string \<Rightarrow> string) \<Rightarrow> 'tree RepoChunker \<Rightarrow> string \<Rightarrow> chunk list \<Rightarrow> string \<Rightarrow> string
     \<Rightarrow> 'tree RepoChunker" where
  "write_chunks sha1_hexdigest str_title self filepath chunks language last_modified =
     fold (write_chunk sha1_hexdigest str_title filepath language last_modified) chunks self"

text \<open>
  \<open>process_file\<close>, with the two library functions it reaches as parameters (the
  digest and \<open>str.title\<close>). The file system is outside the model: \<open>file\<close> is \<open>None\<close> when
  opening or reading the file or taking its modification time raises, and otherwise
  the content and the modification time; \<open>relative_path\<close> is the path relative to the
  root. Every exception ends in the \<open>except\<close> branch, which counts the file as failed.
\<close>

definition process_file ::
  "(string \<Rightarrow> string) \<Rightarrow> (string \<Rightarrow> string) \<Rightarrow> 'tree RepoChunker \<Rightarrow> string \<Rightarrow> string \<Rightarrow> (string \<times> string) option
     \<Rightarrow> 'tree RepoChunker" where
  "process_file sha1_hexdigest str_title self filepath relative_path file =
     (let stats0 = (stats self)\<lparr>total_files := total_files (stats self) + 1\<rparr>
      in case file of
           None \<Rightarrow> self\<lparr>stats := stats0\<lparr>failed_files := failed_files stats0 + 1\<rparr>\<rparr>
         | Some (content, last_modified) \<Rightarrow>
             (let chunks = chunk_file (chunker self) filepath content
              in if chunks \<noteq> [] then
                   (let stats1 = stats0\<lparr>parsed_files := parsed_files stats0 + 1\<rparr>;
                        language = get_language filepath;
                        by_language =
                          (case chunks_by_language stats1 language of
                             None \<Rightarrow> (chunks_by_language stats1)(language \<mapsto> 0)
                           | Some n \<Rightarrow> chunks_by_language stats1);
                        count = (case by_language language of Some n \<Rightarrow> n | None \<Rightarrow> 0);
                        stats2 = stats1\<lparr>chunks_by_language :=
                                   by_language(language \<mapsto> count + int (length chunks))\<rparr>
                    in write_chunks sha1_hexdigest str_title (self\<lparr>stats := stats2\<rparr>) relative_path chunks
                         language last_modified)
                 else self\<lparr>stats := stats0\<lparr>failed_files := failed_files stats0 + 1\<rparr>\<rparr>))"

section \<open>Auxiliary notions for the proofs\<close>

text \<open>
  The normalizer's loop read as a recursion on the list of chunks that are still to be
  visited; \<open>merge_loop_rec\<close> below shows that the loop computes it.
\<close>

fun merge_rec :: "'tree TreeSitterChunker \<Rightarrow> chunk list \<Rightarrow> chunk list" where
  "merge_rec self [] = []"
| "merge_rec self [c] = [c]"
| "merge_rec self (c # n # rest) =
     (if estimate_tokens (token_estimator self) (chunk_text c) < min_tokens self
         \<and> estimate_tokens (token_estimator self) (chunk_text c)
              + estimate_tokens (token_estimator self) (chunk_text n) \<le> max_tokens self
      then merged_chunk c n # merge_rec self rest
      else c # merge_rec self (n # rest))"

text \<open>
  \<open>tiles ls s cs\<close>: the chunks \<open>cs\<close>, in order, cut the lines \<open>ls\<close> into consecutive
  non-empty groups, the first line of \<open>ls\<close> having the number \<open>s\<close>; each chunk's line
  range is its group's and its text is the join of its group.
\<close>

fun tiles :: "string list \<Rightarrow> int \<Rightarrow> chunk list \<Rightarrow> bool" where
  "tiles ls s [] = (ls = [])"
| "tiles ls s (c # cs) =
     (start_line c = s \<and> s \<le> end_line c \<and> nat (end_line c - s + 1) \<le> length ls
      \<and> chunk_text c = join_nl (take (nat (end_line c - s + 1)) ls)
      \<and> tiles (drop (nat (end_line c - s + 1)) ls) (end_line c + 1) cs)"

text \<open>
  The two ways a chunk gets into the normalizer's output: as the merge of two adjacent
  input chunks, or as an input chunk that is passed through.
\<close>

definition merged_ok :: "'tree TreeSitterChunker \<Rightarrow> chunk list \<Rightarrow> chunk \<Rightarrow> bool" where
  "merged_ok self chunks c \<longleftrightarrow>
     (\<exists>i. Suc i < length chunks \<and> c = merged_chunk (chunks ! i) (chunks ! Suc i)
        \<and> estimate_tokens (token_estimator self) (chunk_text (chunks ! i)) < min_tokens self
        \<and> estimate_tokens (token_estimator self) (chunk_text (chunks ! i))
             + estimate_tokens (token_estimator self) (chunk_text (chunks ! Suc i))
           \<le> max_tokens self)"

definition kept_ok :: "'tree TreeSitterChunker \<Rightarrow> chunk list \<Rightarrow> chunk \<Rightarrow> bool" where
  "kept_ok self chunks c \<longleftrightarrow>
     (\<exists>i. i < length chunks \<and> c = chunks ! i
        \<and> (min_tokens self \<le> estimate_tokens (token_estimator self) (chunk_text c)
            \<or> Suc i = length chunks
            \<or> (Suc i < length chunks
                \<and> max_tokens self
                    < estimate_tokens (token_estimator self) (chunk_text (chunks ! i))
                      + estimate_tokens (token_estimator self) (chunk_text (chunks ! Suc i)))))"

text \<open>
  The chunker as \<open>TreeSitterChunker.__init__\<close> leaves it when neither tiktoken nor
  Tree-sitter is installed: no encoder and no parser. The concrete runs below use it.
\<close>

definition plain_chunker :: "int \<Rightarrow> int \<Rightarrow> int \<Rightarrow> unit TreeSitterChunker" where
  "plain_chunker mx mn ov =
     \<lparr>max_tokens = mx, min_tokens = mn, overlap_tokens = ov,
      token_estimator = \<lparr>encoder = None\<rparr>,
      parsers = Map.empty, queries = Map.empty, run_query = (\<lambda>tree q. None)\<rparr>"

chapter \<open>Properties\<close>

section \<open>Lines and their join\<close>

lemma split_nl_not_Nil: "split_nl s \<noteq> []"
  by (induction s) (auto split: list.splits)

lemma join_nl_Cons: "ys \<noteq> [] \<Longrightarrow> join_nl (x # ys) = x @ nl # join_nl ys"
  by (cases ys) auto

lemma join_nl_append:
  "xs \<noteq> [] \<Longrightarrow> ys \<noteq> [] \<Longrightarrow> join_nl (xs @ ys) = join_nl xs @ nl # join_nl ys"
proof (induction xs rule: join_nl.induct)
  case 1
  then show ?case by simp
next
  case (2 x)
  then show ?case by (simp add: join_nl_Cons)
next
  case (3 x y zs)
  then show ?case by simp
qed


section \<open>TokenEstimator: the fallback heuristic\<close>

text \<open>
  C7, as the specification states it: without the exact tokenizer the estimate is the
  ceiling of a quarter of the length. The code divides with \<open>//\<close>, which rounds down:
  on the three characters \<open>abc\<close> it returns 0, and the ceiling is 1.
\<close>

theorem C7_ceiling_counterexample:
  "estimate_tokens \<lparr>encoder = None\<rparr> ''abc'' \<noteq> \<lceil>real (length ''abc'') / 4\<rceil>"
  by (simp add: estimate_tokens_def)

text \<open>
  C7, amended: without the exact tokenizer, \<open>estimate_tokens\<close> returns the floor of a
  quarter of the length of the text, a non-negative integer. (The result is a function
  of the text alone, so every call on the same text returns the same value.)
\<close>

theorem C7_estimate_tokens_floor:
  "encoder self = None \<Longrightarrow>
     estimate_tokens self t = \<lfloor>real (length t) / 4\<rfloor>
     \<and> estimate_tokens self t = int (length t div 4)
     \<and> 0 \<le> estimate_tokens self t"
proof -
  assume "encoder self = None"
  then have e: "estimate_tokens self t = int (length t) div 4"
    by (simp add: estimate_tokens_def)
  have "\<lfloor>real (length t) / 4\<rfloor> = int (length t) div 4"
    by (metis floor_divide_of_int_eq of_int_numeral of_int_of_nat_eq)
  with e show ?thesis by (simp add: zdiv_int)
qed

theorem C7_estimate_tokens_floor_witness:
  "encoder \<lparr>encoder = None\<rparr> = None
   \<and> estimate_tokens \<lparr>encoder = None\<rparr> ''hello world'' = 2
   \<and> \<lfloor>real (length ''hello world'') / 4\<rfloor> = (2::int)"
  using C7_estimate_tokens_floor [of "\<lparr>encoder = None\<rparr>" "''hello world''"] by simp

section \<open>ChunkIdentity: the id embeds the fingerprint\<close>

text \<open>
  C3: for every path, line range and text, and whatever the digest function is, the
  fingerprint computed by \<open>create_code_fingerprint\<close> is the id computed by
  \<open>create_chunk_id\<close> with its prefix \<open>sha1:\<close> stripped, and both are the digest of
  path ":" start ":" end ":" text.
\<close>

theorem C3_fingerprint_matches_id:
  "create_chunk_id sha1_hexdigest p s e t = ''sha1:'' @ create_code_fingerprint sha1_hexdigest p s e t
   \<and> create_code_fingerprint sha1_hexdigest p s e t
       = drop (length ''sha1:'') (create_chunk_id sha1_hexdigest p s e t)
   \<and> create_code_fingerprint sha1_hexdigest p s e t = sha1_hexdigest (spec_digest_input p s e t)"
  by (simp add: create_chunk_id_def create_code_fingerprint_def spec_digest_input_def)

section \<open>ChunkNormalizer: the loop as a recursion\<close>

lemma merge_loop_rec:
  "i \<le> length chunks \<Longrightarrow> merge_loop self chunks i merged = merged @ merge_rec self (drop i chunks)"
proof (induction self chunks i merged rule: merge_loop.induct)
  case (1 self chunks i merged)
  show ?case
  proof (cases "i < length chunks")
    case False
    with "1.prems" show ?thesis by (simp add: merge_loop.simps)
  next
    case True
    then have d: "drop i chunks = chunks ! i # drop (Suc i) chunks"
      by (simp add: Cons_nth_drop_Suc)
    show ?thesis
    proof (cases "Suc i < length chunks")
      case False
      with True have e: "drop (Suc i) chunks = []" by simp
      from True False "1.IH"(2) have
        "merge_loop self chunks (i + 1) (merged @ [chunks ! i])
           = (merged @ [chunks ! i]) @ merge_rec self (drop (i + 1) chunks)"
        by simp
      with True False d e show ?thesis
        by (subst merge_loop.simps) simp
    next
      case S: True
      then have d2: "drop (Suc i) chunks = chunks ! Suc i # drop (Suc (Suc i)) chunks"
        by (simp add: Cons_nth_drop_Suc)
      let ?m = "estimate_tokens (token_estimator self) (chunk_text (chunks ! i)) < min_tokens self
         \<and> estimate_tokens (token_estimator self) (chunk_text (chunks ! i))
              + estimate_tokens (token_estimator self) (chunk_text (chunks ! Suc i)) \<le> max_tokens self"
      show ?thesis
      proof (cases ?m)
        case M: True
        with True S "1.IH"(1) have
          "merge_loop self chunks (i + 2) (merged @ [merged_chunk (chunks ! i) (chunks ! (i + 1))])
             = (merged @ [merged_chunk (chunks ! i) (chunks ! (i + 1))])
                @ merge_rec self (drop (i + 2) chunks)"
          by simp
        with True S M d d2 show ?thesis
          by (subst merge_loop.simps) simp
      next
        case M: False
        with True S "1.IH"(2) have
          "merge_loop self chunks (i + 1) (merged @ [chunks ! i])
             = (merged @ [chunks ! i]) @ merge_rec self (drop (i + 1) chunks)"
          by simp
        with True S M d d2 show ?thesis
          by (subst merge_loop.simps) auto
      qed
    qed
  qed
qed

lemma merge_small_chunks_rec: "merge_small_chunks self chunks = merge_rec self chunks"
  by (simp add: merge_small_chunks_def merge_loop_rec)

lemma merge_rec_Nil_iff: "merge_rec self cs = [] \<longleftrightarrow> cs = []"
  by (induction self cs rule: merge_rec.induct) auto

lemma join_text_merge_rec:
  "join_nl (map chunk_text (merge_rec self cs)) = join_nl (map chunk_text cs)"
proof (induction self cs rule: merge_rec.induct)
  case (1 self)
  show ?case by simp
next
  case (2 self c)
  show ?case by simp
next
  case (3 self c n rest)
  show ?case
  proof (cases "rest = []")
    case True
    then show ?thesis by (simp add: merged_chunk_def)
  next
    case False
    then have ne: "merge_rec self rest \<noteq> []" "map chunk_text rest \<noteq> []"
      by (simp_all add: merge_rec_Nil_iff)
    have ne2: "merge_rec self (n # rest) \<noteq> []"
      by (simp add: merge_rec_Nil_iff)
    from 3 ne ne2 show ?thesis
      by (auto simp: join_nl_Cons merged_chunk_def)
  qed
qed

lemma hd_merge_rec: "cs \<noteq> [] \<Longrightarrow> start_line (hd (merge_rec self cs)) = start_line (hd cs)"
  by (induction self cs rule: merge_rec.induct) (auto simp: merged_chunk_def)

lemma last_merge_rec: "cs \<noteq> [] \<Longrightarrow> end_line (last (merge_rec self cs)) = end_line (last cs)"
  by (induction self cs rule: merge_rec.induct) (auto simp: merged_chunk_def merge_rec_Nil_iff)

text \<open>
  C10: for every input list, \<open>_merge_small_chunks\<close> keeps the text and its order: the
  newline-join of the output texts is the newline-join of the input texts, and (for a
  list that is not empty) the first \<open>start_line\<close> and the last \<open>end_line\<close> are those of
  the input.
\<close>

theorem C10_merge_preserves_text:
  "join_nl (map chunk_text (merge_small_chunks self chunks)) = join_nl (map chunk_text chunks)
   \<and> (chunks \<noteq> [] \<longrightarrow>
        merge_small_chunks self chunks \<noteq> []
        \<and> start_line (hd (merge_small_chunks self chunks)) = start_line (hd chunks)
        \<and> end_line (last (merge_small_chunks self chunks)) = end_line (last chunks))"
  by (simp add: merge_small_chunks_rec join_text_merge_rec hd_merge_rec last_merge_rec
      merge_rec_Nil_iff)

theorem C10_merge_preserves_text_witness:
  "[block_chunk 0 1 1 [''aaaa''], block_chunk 1 2 2 [''bbbb'']] \<noteq> []
   \<and> join_nl (map chunk_text (merge_small_chunks (plain_chunker 1000 5 0)
         [block_chunk 0 1 1 [''aaaa''], block_chunk 1 2 2 [''bbbb'']])) = ''aaaa\<newline>bbbb''
   \<and> start_line (hd (merge_small_chunks (plain_chunker 1000 5 0)
         [block_chunk 0 1 1 [''aaaa''], block_chunk 1 2 2 [''bbbb'']])) = 1
   \<and> end_line (last (merge_small_chunks (plain_chunker 1000 5 0)
         [block_chunk 0 1 1 [''aaaa''], block_chunk 1 2 2 [''bbbb'']])) = 2"
  using C10_merge_preserves_text [of "plain_chunker 1000 5 0"
      "[block_chunk 0 1 1 [''aaaa''], block_chunk 1 2 2 [''bbbb'']]"]
  by (simp add: block_chunk_def nl_def)

section \<open>ChunkNormalizer: which chunks may stay below the minimum\<close>

lemma merged_ok_Cons: "merged_ok self cs c \<Longrightarrow> merged_ok self (x # cs) c"
  unfolding merged_ok_def
proof (elim exE)
  fix i
  assume a: "Suc i < length cs \<and> c = merged_chunk (cs ! i) (cs ! Suc i)
        \<and> estimate_tokens (token_estimator self) (chunk_text (cs ! i)) < min_tokens self
        \<and> estimate_tokens (token_estimator self) (chunk_text (cs ! i))
             + estimate_tokens (token_estimator self) (chunk_text (cs ! Suc i))
           \<le> max_tokens self"
  show "\<exists>i. Suc i < length (x # cs) \<and> c = merged_chunk ((x # cs) ! i) ((x # cs) ! Suc i)
        \<and> estimate_tokens (token_estimator self) (chunk_text ((x # cs) ! i)) < min_tokens self
        \<and> estimate_tokens (token_estimator self) (chunk_text ((x # cs) ! i))
             + estimate_tokens (token_estimator self) (chunk_text ((x # cs) ! Suc i))
           \<le> max_tokens self"
    using a by (intro exI [of _ "Suc i"]) simp
qed

lemma kept_ok_Cons: "kept_ok self cs c \<Longrightarrow> kept_ok self (x # cs) c"
  unfolding kept_ok_def
  apply (elim exE)
  subgoal for i
    by (rule exI [of _ "Suc i"]) auto
  done

lemma merge_rec_ok:
  "c \<in> set (merge_rec self cs) \<Longrightarrow> merged_ok self cs c \<or> kept_ok self cs c"
proof (induction self cs rule: merge_rec.induct)
  case (1 self)
  then show ?case by simp
next
  case (2 self c0)
  then have "kept_ok self [c0] c"
    by (auto simp: kept_ok_def)
  then show ?case ..
next
  case (3 self c0 n rest)
  let ?m = "estimate_tokens (token_estimator self) (chunk_text c0) < min_tokens self
         \<and> estimate_tokens (token_estimator self) (chunk_text c0)
              + estimate_tokens (token_estimator self) (chunk_text n) \<le> max_tokens self"
  show ?case
  proof (cases ?m)
    case True
    with "3.prems" have "c = merged_chunk c0 n \<or> c \<in> set (merge_rec self rest)"
      by auto
    then show ?thesis
    proof
      assume "c = merged_chunk c0 n"
      with True have "merged_ok self (c0 # n # rest) c"
        unfolding merged_ok_def by (intro exI [of _ 0]) simp
      then show ?thesis ..
    next
      assume "c \<in> set (merge_rec self rest)"
      with True "3.IH"(1) have "merged_ok self rest c \<or> kept_ok self rest c"
        by blast
      then show ?thesis
        by (blast intro: merged_ok_Cons kept_ok_Cons)
    qed
  next
    case False
    with "3.prems" have "c = c0 \<or> c \<in> set (merge_rec self (n # rest))"
      by auto
    then show ?thesis
    proof
      assume "c = c0"
      with False have "kept_ok self (c0 # n # rest) c"
        unfolding kept_ok_def by (intro exI [of _ 0]) auto
      then show ?thesis ..
    next
      assume "c \<in> set (merge_rec self (n # rest))"
      with False "3.IH"(2) have "merged_ok self (n # rest) c \<or> kept_ok self (n # rest) c"
        by blast
      then show ?thesis
        by (blast intro: merged_ok_Cons kept_ok_Cons)
    qed
  qed
qed

text \<open>
  C2, as the specification states it: an output chunk below \<open>min_tokens\<close> is the last
  one, or merging it with its successor would exceed \<open>max_tokens\<close>. The pass is single:
  a merged chunk is never looked at again. With \<open>min_tokens = 5\<close> and
  \<open>max_tokens = 1000\<close>, two chunks of 1 token each followed by one of 10 tokens give
  two output chunks; the first, the merge, has 2 tokens, is not the last, and merging
  it with its successor would give 12 tokens.
\<close>

theorem C2_merged_chunk_below_min_counterexample:
  "(let self = plain_chunker 1000 5 0;
        out = merge_small_chunks self
                [block_chunk 0 1 1 [''aaaa''], block_chunk 1 2 2 [''bbbb''],
                 block_chunk 2 3 3 [''cccccccccccccccccccccccccccccccccccccccc'']]
    in length out = 2
       \<and> estimate_tokens (token_estimator self) (chunk_text (out ! 0)) < min_tokens self
       \<and> estimate_tokens (token_estimator self) (chunk_text (out ! 0))
            + estimate_tokens (token_estimator self) (chunk_text (out ! 1)) \<le> max_tokens self)"
  by code_simp

text \<open>
  C2, amended: every output chunk of \<open>_merge_small_chunks\<close> is either the merge of two
  adjacent input chunks, the first of them below \<open>min_tokens\<close> and the two together
  within \<open>max_tokens\<close> (the merge itself is not compared with \<open>min_tokens\<close> again), or
  an input chunk passed through unchanged, which then is at least \<open>min_tokens\<close>, or is
  the last chunk of the input, or would exceed \<open>max_tokens\<close> together with its
  successor in the input.
\<close>

theorem C2_merge_output_chunks:
  "\<forall>c \<in> set (merge_small_chunks self chunks).
     (\<exists>i. Suc i < length chunks \<and> c = merged_chunk (chunks ! i) (chunks ! Suc i)
        \<and> estimate_tokens (token_estimator self) (chunk_text (chunks ! i)) < min_tokens self
        \<and> estimate_tokens (token_estimator self) (chunk_text (chunks ! i))
             + estimate_tokens (token_estimator self) (chunk_text (chunks ! Suc i))
           \<le> max_tokens self)
     \<or> (\<exists>i. i < length chunks \<and> c = chunks ! i
        \<and> (min_tokens self \<le> estimate_tokens (token_estimator self) (chunk_text c)
            \<or> Suc i = length chunks
            \<or> (Suc i < length chunks
                \<and> max_tokens self
                    < estimate_tokens (token_estimator self) (chunk_text (chunks ! i))
                      + estimate_tokens (token_estimator self) (chunk_text (chunks ! Suc i)))))"
  using merge_rec_ok [of _ self chunks]
  unfolding merge_small_chunks_rec merged_ok_def kept_ok_def by blast

theorem C2_merge_output_chunks_witness:
  "(let self = plain_chunker 3 5 0;
        a = block_chunk 0 1 1 [''aaaa''];
        b = block_chunk 1 2 2 [''bbbbbbbbbbbb''];
        chunks = [a, b]
    in a \<in> set (merge_small_chunks self chunks)
       \<and> a = chunks ! 0
       \<and> \<not> min_tokens self \<le> estimate_tokens (token_estimator self) (chunk_text a)
       \<and> Suc 0 < length chunks
       \<and> max_tokens self
            < estimate_tokens (token_estimator self) (chunk_text (chunks ! 0))
              + estimate_tokens (token_estimator self) (chunk_text (chunks ! Suc 0)))"
proof -
  let ?self = "plain_chunker 3 5 0"
  let ?a = "block_chunk 0 1 1 [''aaaa'']"
  let ?b = "block_chunk 1 2 2 [''bbbbbbbbbbbb'']"
  have m: "?a \<in> set (merge_small_chunks ?self [?a, ?b])"
    by code_simp
  have nm: "\<not> (\<exists>i. ?a = merged_chunk ([?a, ?b] ! i) ([?a, ?b] ! Suc i))"
    by (simp add: merged_chunk_def block_chunk_def)
  have small: "\<not> min_tokens ?self \<le> estimate_tokens (token_estimator ?self) (chunk_text ?a)"
    by code_simp
  have neq: "?a \<noteq> ?b"
    by (simp add: block_chunk_def)
  from C2_merge_output_chunks [of ?self "[?a, ?b]"] m nm
  obtain i where i: "i < length [?a, ?b]" "?a = [?a, ?b] ! i"
    "min_tokens ?self \<le> estimate_tokens (token_estimator ?self) (chunk_text ?a)
      \<or> Suc i = length [?a, ?b]
      \<or> (Suc i < length [?a, ?b]
          \<and> max_tokens ?self
              < estimate_tokens (token_estimator ?self) (chunk_text ([?a, ?b] ! i))
                + estimate_tokens (token_estimator ?self) (chunk_text ([?a, ?b] ! Suc i)))"
    by blast
  from i(1,2) neq have i0: "i = 0"
    by (cases i) auto
  with i(3) small have "max_tokens ?self
              < estimate_tokens (token_estimator ?self) (chunk_text ([?a, ?b] ! 0))
                + estimate_tokens (token_estimator ?self) (chunk_text ([?a, ?b] ! Suc 0))"
    by simp
  with m small show ?thesis
    by (simp add: Let_def)
qed

section \<open>Line coverage\<close>

lemma tiles_append:
  "tiles xs s cs \<Longrightarrow> tiles ys (s + int (length xs)) ds \<Longrightarrow> tiles (xs @ ys) s (cs @ ds)"
proof (induction cs arbitrary: xs s)
  case Nil
  then show ?case by simp
next
  case (Cons c cs)
  let ?n = "nat (end_line c - s + 1)"
  from Cons.prems(1) have c: "start_line c = s" "s \<le> end_line c" "?n \<le> length xs"
    "chunk_text c = join_nl (take ?n xs)" "tiles (drop ?n xs) (end_line c + 1) cs"
    by simp_all
  have e: "end_line c + 1 + int (length (drop ?n xs)) = s + int (length xs)"
    using c(2,3) by simp
  have "tiles ys (end_line c + 1 + int (length (drop ?n xs))) ds"
    unfolding e by (rule Cons.prems(2))
  with Cons.IH [OF c(5)] have "tiles (drop ?n xs @ ys) (end_line c + 1) (cs @ ds)" .
  with c show ?case by simp
qed

lemma tiles_block:
  "cur \<noteq> [] \<Longrightarrow> tiles cur s [block_chunk k s (s + int (length cur) - 1) cur]"
  by (simp add: block_chunk_def)

lemma fallback_loop_tiles:
  "tiles pre 1 chunks \<Longrightarrow> i = int (length pre) + int (length cur) + 1 \<Longrightarrow>
   fallback_loop self rest i (chunks, cur, tok) = (chunks', cur', tok') \<Longrightarrow>
   \<exists>pre'. pre' @ cur' = pre @ cur @ rest \<and> tiles pre' 1 chunks'
          \<and> (cur \<noteq> [] \<or> rest \<noteq> [] \<longrightarrow> cur' \<noteq> [])"
proof (induction rest arbitrary: pre chunks cur tok i)
  case Nil
  then show ?case by auto
next
  case (Cons line rest)
  let ?lt = "estimate_tokens (token_estimator self) line"
  show ?case
  proof (cases "tok + ?lt > max_tokens self \<and> cur \<noteq> []")
    case True
    have b: "tiles cur (1 + int (length pre))
               [block_chunk (length chunks) (i - int (length cur)) (i - 1) cur]"
      using tiles_block [of cur "1 + int (length pre)" "length chunks"] True Cons.prems(2)
      by (simp add: algebra_simps)
    have t: "tiles (pre @ cur) 1
               (chunks @ [block_chunk (length chunks) (i - int (length cur)) (i - 1) cur])"
      using tiles_append [OF Cons.prems(1) b] .
    have i: "i + 1 = int (length (pre @ cur)) + int (length [line]) + 1"
      using Cons.prems(2) by simp
    have r: "fallback_loop self rest (i + 1)
               (chunks @ [block_chunk (length chunks) (i - int (length cur)) (i - 1) cur],
                [line], ?lt) = (chunks', cur', tok')"
      using Cons.prems(3) True by (simp add: Let_def)
    from Cons.IH [OF t i r] show ?thesis by auto
  next
    case False
    have i: "i + 1 = int (length pre) + int (length (cur @ [line])) + 1"
      using Cons.prems(2) by simp
    have r: "fallback_loop self rest (i + 1) (chunks, cur @ [line], tok + ?lt)
               = (chunks', cur', tok')"
      using Cons.prems(3) False by (auto simp: Let_def)
    from Cons.IH [OF Cons.prems(1) i r] show ?thesis by auto
  qed
qed

lemma fallback_chunking_tiles:
  "tiles (split_nl content) 1 (fallback_chunking self content filepath)"
proof -
  let ?lines = "split_nl content"
  obtain chunks cur tok where r: "fallback_loop self ?lines 1 ([], [], 0) = (chunks, cur, tok)"
    by (metis prod_cases3)
  have "tiles [] 1 []" by simp
  from fallback_loop_tiles [OF this _ r] obtain pre where
    p: "pre @ cur = ?lines" "tiles pre 1 chunks" "cur \<noteq> []"
    using split_nl_not_Nil by auto
  have l: "int (length ?lines) = int (length pre) + int (length cur)"
    using p(1) by (metis length_append of_nat_add)
  have "tiles cur (1 + int (length pre))
          [block_chunk (length chunks) (int (length ?lines) - int (length cur) + 1)
             (int (length ?lines)) cur]"
    using tiles_block [of cur "1 + int (length pre)" "length chunks"] p(3) l
    by (simp add: algebra_simps)
  from tiles_append [OF p(2) this] p(1,3) r show ?thesis
    by (simp add: fallback_chunking_def Let_def)
qed

lemma tiles_merge_rec: "tiles ls s cs \<Longrightarrow> tiles ls s (merge_rec self cs)"
proof (induction self cs arbitrary: ls s rule: merge_rec.induct)
  case (1 self)
  then show ?case by simp
next
  case (2 self c)
  then show ?case by simp
next
  case (3 self c n rest)
  let ?n1 = "nat (end_line c - s + 1)"
  let ?n2 = "nat (end_line n - (end_line c + 1) + 1)"
  from "3.prems" have c: "start_line c = s" "s \<le> end_line c" "?n1 \<le> length ls"
    "chunk_text c = join_nl (take ?n1 ls)" and tl: "tiles (drop ?n1 ls) (end_line c + 1) (n # rest)"
    by simp_all
  from tl have n: "start_line n = end_line c + 1" "end_line c + 1 \<le> end_line n"
    "?n2 \<le> length (drop ?n1 ls)" "chunk_text n = join_nl (take ?n2 (drop ?n1 ls))"
    "tiles (drop ?n2 (drop ?n1 ls)) (end_line n + 1) rest"
    by simp_all
  let ?m = "estimate_tokens (token_estimator self) (chunk_text c) < min_tokens self
         \<and> estimate_tokens (token_estimator self) (chunk_text c)
              + estimate_tokens (token_estimator self) (chunk_text n) \<le> max_tokens self"
  show ?case
  proof (cases ?m)
    case True
    have sum: "nat (end_line n - s + 1) = ?n1 + ?n2"
      using c(2) n(2) by simp
    have ne: "take ?n1 ls \<noteq> []" "take ?n2 (drop ?n1 ls) \<noteq> []"
      using c(2,3) n(2,3) by auto
    have "join_nl (take (?n1 + ?n2) ls) = chunk_text c @ nl # chunk_text n"
      using join_nl_append [OF ne] c(4) n(4) by (simp add: take_add)
    moreover have "drop (?n1 + ?n2) ls = drop ?n2 (drop ?n1 ls)"
      by (simp add: add.commute)
    moreover have "?n1 + ?n2 \<le> length ls"
      using c(3) n(3) by simp
    moreover have "tiles (drop ?n2 (drop ?n1 ls)) (end_line n + 1) (merge_rec self rest)"
      using "3.IH"(1) True n(5) by blast
    ultimately show ?thesis
      using True c(1,2) n(2) sum by (simp add: merged_chunk_def)
  next
    case False
    then have "tiles (drop ?n1 ls) (end_line c + 1) (merge_rec self (n # rest))"
      using "3.IH"(2) tl by blast
    with False c show ?thesis by auto
  qed
qed

lemma tiles_Nil_iff: "tiles ls s cs \<Longrightarrow> cs = [] \<longleftrightarrow> ls = []"
  by (cases cs) auto

lemma tiles_hd: "tiles ls s cs \<Longrightarrow> cs \<noteq> [] \<Longrightarrow> start_line (hd cs) = s"
  by (cases cs) auto

lemma tiles_last:
  "tiles ls s cs \<Longrightarrow> cs \<noteq> [] \<Longrightarrow> end_line (last cs) = s + int (length ls) - 1"
proof (induction cs arbitrary: ls s)
  case Nil
  then show ?case by simp
next
  case (Cons c cs)
  let ?n = "nat (end_line c - s + 1)"
  from Cons.prems(1) have c: "s \<le> end_line c" "?n \<le> length ls"
    and t: "tiles (drop ?n ls) (end_line c + 1) cs"
    by simp_all
  show ?case
  proof (cases "cs = []")
    case True
    with t have "drop ?n ls = []" by simp
    with c have "int (length ls) = end_line c - s + 1" by simp
    with True show ?thesis by simp
  next
    case False
    from Cons.IH [OF t False] c False show ?thesis by simp
  qed
qed

lemma tiles_adjacent:
  "tiles ls s cs \<Longrightarrow> Suc i < length cs \<Longrightarrow> start_line (cs ! Suc i) = end_line (cs ! i) + 1"
proof (induction cs arbitrary: ls s i)
  case Nil
  then show ?case by simp
next
  case (Cons c cs)
  from Cons.prems(1) have t: "tiles (drop (nat (end_line c - s + 1)) ls) (end_line c + 1) cs"
    by simp
  show ?case
  proof (cases i)
    case 0
    with Cons.prems(2) have "cs \<noteq> []" by auto
    from tiles_hd [OF t this] 0 show ?thesis
      by (simp add: hd_conv_nth \<open>cs \<noteq> []\<close>)
  next
    case (Suc j)
    with Cons.prems(2) have "Suc j < length cs" by simp
    from Cons.IH [OF t this] Suc show ?thesis by simp
  qed
qed

lemma py_slice_drop:
  "0 \<le> a \<Longrightarrow> a \<le> b \<Longrightarrow> n \<le> length xs \<Longrightarrow> b \<le> int (length xs) - int n \<Longrightarrow>
   py_slice (drop n xs) a b = py_slice xs (a + int n) (b + int n)"
  by (simp add: py_slice_def Let_def min_def nat_add_distrib add.commute)

lemma py_slice_take: "0 \<le> b \<Longrightarrow> b \<le> int (length xs) \<Longrightarrow> py_slice xs 0 b = take (nat b) xs"
  by (simp add: py_slice_def Let_def min_def)


lemma tiles_chunk:
  "tiles ls s cs \<Longrightarrow> c \<in> set cs \<Longrightarrow>
   s \<le> start_line c \<and> start_line c \<le> end_line c \<and> end_line c < s + int (length ls)
   \<and> chunk_text c = join_nl (py_slice ls (start_line c - s) (end_line c - s + 1))"
proof (induction cs arbitrary: ls s)
  case Nil
  then show ?case by simp
next
  case (Cons c0 cs)
  let ?n = "nat (end_line c0 - s + 1)"
  from Cons.prems(1) have c0: "start_line c0 = s" "s \<le> end_line c0" "?n \<le> length ls"
    "chunk_text c0 = join_nl (take ?n ls)"
    and t: "tiles (drop ?n ls) (end_line c0 + 1) cs"
    by simp_all
  from Cons.prems(2) have "c = c0 \<or> c \<in> set cs" by auto
  then show ?case
  proof
    assume "c = c0"
    with c0 show ?thesis
      by (simp add: py_slice_take)
  next
    assume "c \<in> set cs"
    from Cons.IH [OF t this] have ih:
      "end_line c0 + 1 \<le> start_line c" "start_line c \<le> end_line c"
      "end_line c < end_line c0 + 1 + int (length (drop ?n ls))"
      "chunk_text c = join_nl (py_slice (drop ?n ls) (start_line c - (end_line c0 + 1))
                                 (end_line c - (end_line c0 + 1) + 1))"
      by simp_all
    have n: "int ?n = end_line c0 - s + 1"
      using c0(2) by simp
    have "py_slice (drop ?n ls) (start_line c - (end_line c0 + 1))
            (end_line c - (end_line c0 + 1) + 1)
          = py_slice ls (start_line c - (end_line c0 + 1) + int ?n)
              (end_line c - (end_line c0 + 1) + 1 + int ?n)"
      using ih(1,2,3) c0(3) by (intro py_slice_drop) simp_all
    also have "\<dots> = py_slice ls (start_line c - s) (end_line c - s + 1)"
      unfolding n by (simp add: algebra_simps)
    finally show ?thesis
      using ih c0(2,3) by simp
  qed
qed



lemma fallback_merged_tiles:
  "tiles (split_nl content) 1 (merge_small_chunks self (fallback_chunking self content filepath))"
  by (simp add: merge_small_chunks_rec tiles_merge_rec fallback_chunking_tiles)

text \<open>
  C1: for every content, every estimator and every \<open>min_tokens\<close> and \<open>max_tokens\<close>, the
  chunks that \<open>_fallback_chunking\<close> and then \<open>_merge_small_chunks\<close> produce (before any
  overlap) cover the lines of the content with no gap: there is a first chunk and it
  starts at line 1, each next chunk starts one line after the end of the one before,
  the last chunk ends at the number of lines, and the text of each chunk is the
  newline-join of the lines \<open>lines[start_line - 1 : end_line]\<close>.
\<close>

theorem C1_fallback_path_covers_lines:
  "(let lines = split_nl content;
        cs = merge_small_chunks self (fallback_chunking self content filepath)
    in cs \<noteq> []
       \<and> start_line (hd cs) = 1
       \<and> (\<forall>i. Suc i < length cs \<longrightarrow> start_line (cs ! Suc i) = end_line (cs ! i) + 1)
       \<and> end_line (last cs) = int (length lines)
       \<and> (\<forall>c \<in> set cs.
             1 \<le> start_line c \<and> start_line c \<le> end_line c \<and> end_line c \<le> int (length lines)
             \<and> chunk_text c = join_nl (py_slice lines (start_line c - 1) (end_line c))))"
proof -
  let ?lines = "split_nl content"
  let ?cs = "merge_small_chunks self (fallback_chunking self content filepath)"
  have t: "tiles ?lines 1 ?cs" by (rule fallback_merged_tiles)
  have ne: "?cs \<noteq> []"
    using tiles_Nil_iff [OF t] split_nl_not_Nil by simp
  have h: "start_line (hd ?cs) = 1"
    by (rule tiles_hd [OF t ne])
  have a: "\<forall>i. Suc i < length ?cs \<longrightarrow> start_line (?cs ! Suc i) = end_line (?cs ! i) + 1"
    using tiles_adjacent [OF t] by blast
  have l: "end_line (last ?cs) = int (length ?lines)"
    using tiles_last [OF t ne] by simp
  have c: "\<forall>c \<in> set ?cs.
             1 \<le> start_line c \<and> start_line c \<le> end_line c \<and> end_line c \<le> int (length ?lines)
             \<and> chunk_text c = join_nl (py_slice ?lines (start_line c - 1) (end_line c))"
  proof
    fix c assume "c \<in> set ?cs"
    from tiles_chunk [OF t this] show
      "1 \<le> start_line c \<and> start_line c \<le> end_line c \<and> end_line c \<le> int (length ?lines)
       \<and> chunk_text c = join_nl (py_slice ?lines (start_line c - 1) (end_line c))"
      by simp
  qed
  from ne h a l c show ?thesis
    unfolding Let_def by blast
qed

theorem C1_fallback_path_covers_lines_witness:
  "(let lines = split_nl ''ab\<newline>cdefghij\<newline>klmnopqr'';
        cs = merge_small_chunks (plain_chunker 2 1 0)
               (fallback_chunking (plain_chunker 2 1 0) ''ab\<newline>cdefghij\<newline>klmnopqr''
                  ''notes.txt'')
    in Suc 0 < length cs
       \<and> start_line (cs ! Suc 0) = end_line (cs ! 0) + 1
       \<and> cs ! 1 \<in> set cs
       \<and> chunk_text (cs ! 1) = join_nl (py_slice lines (start_line (cs ! 1) - 1) (end_line (cs ! 1)))
       \<and> start_line (cs ! 1) = 3 \<and> end_line (cs ! 1) = 3 \<and> chunk_text (cs ! 1) = ''klmnopqr'')"
proof -
  let ?content = "''ab\<newline>cdefghij\<newline>klmnopqr''"
  let ?self = "plain_chunker 2 1 0"
  let ?cs = "merge_small_chunks ?self (fallback_chunking ?self ?content ''notes.txt'')"
  have ev: "?cs = [block_chunk 0 1 2 [''ab'', ''cdefghij''], block_chunk 1 3 3 [''klmnopqr'']]"
    by code_simp
  have len: "Suc 0 < length ?cs" and mem: "?cs ! 1 \<in> set ?cs"
    and vals: "start_line (?cs ! 1) = 3" "end_line (?cs ! 1) = 3" "chunk_text (?cs ! 1) = ''klmnopqr''"
    unfolding ev by (simp_all add: block_chunk_def)
  from C1_fallback_path_covers_lines [of ?content ?self "''notes.txt''"]
  have adj: "\<forall>i. Suc i < length ?cs \<longrightarrow> start_line (?cs ! Suc i) = end_line (?cs ! i) + 1"
    and tx: "\<forall>c \<in> set ?cs. chunk_text c
                = join_nl (py_slice (split_nl ?content) (start_line c - 1) (end_line c))"
    unfolding Let_def by blast+
  from adj len have "start_line (?cs ! Suc 0) = end_line (?cs ! 0) + 1" by blast
  moreover from tx mem have
    "chunk_text (?cs ! 1) = join_nl (py_slice (split_nl ?content) (start_line (?cs ! 1) - 1) (end_line (?cs ! 1)))"
    by blast
  ultimately show ?thesis
    using len mem vals unfolding Let_def by blast
qed

section \<open>FallbackSegmenter: nothing is dropped\<close>




section \<open>MetadataEnricher: the summary line\<close>

lemma is_space_nl: "is_space nl"
  by (simp add: is_space_def nl_def)

lemma split_nl_first:
  "split_nl s = takeWhile (\<lambda>c. c \<noteq> nl) s
      # (case dropWhile (\<lambda>c. c \<noteq> nl) s of [] \<Rightarrow> [] | x # rest \<Rightarrow> split_nl rest)"
proof (induction s)
  case Nil
  show ?case by simp
next
  case (Cons c cs)
  show ?case
  proof (cases "c = nl")
    case True
    then show ?thesis by simp
  next
    case False
    with Cons show ?thesis by simp
  qed
qed

lemma lstrip_Nil: "lstrip [] = []"
  by (simp add: lstrip_def)

lemma lstrip_Cons: "lstrip (c # cs) = (if is_space c then lstrip cs else c # cs)"
  by (simp add: lstrip_def)

lemma lstrip_all_space: "list_all is_space s \<Longrightarrow> lstrip s = []"
  by (simp add: lstrip_def list_all_iff)

lemma lstrip_idem: "lstrip (lstrip s) = lstrip s"
  by (simp add: lstrip_def)

lemma rstrip_Nil: "rstrip [] = []"
  by (simp add: rstrip_def)

lemma rstrip_Cons:
  "rstrip (c # cs) = (if list_all is_space (c # cs) then [] else c # rstrip cs)"
proof (cases "list_all is_space cs")
  case True
  then have "dropWhile is_space (rev cs @ [c]) = dropWhile is_space [c]"
    by (intro dropWhile_append2) (simp add: list_all_iff)
  moreover from True have "dropWhile is_space (rev cs) = []"
    by (simp add: list_all_iff)
  ultimately show ?thesis using True by (simp add: rstrip_def)
next
  case False
  then obtain x where "x \<in> set (rev cs)" "\<not> is_space x"
    by (auto simp: list_all_iff)
  then have "dropWhile is_space (rev cs @ [c]) = dropWhile is_space (rev cs) @ [c]"
    by (rule dropWhile_append1)
  with False show ?thesis by (simp add: rstrip_def)
qed

lemma rstrip_Nil_iff: "rstrip s = [] \<longleftrightarrow> list_all is_space s"
  by (simp add: rstrip_def list_all_iff dropWhile_eq_Nil_conv)

lemma strip_commute: "rstrip (lstrip s) = lstrip (rstrip s)"
proof (induction s)
  case Nil
  show ?case by (simp add: lstrip_Nil rstrip_Nil)
next
  case (Cons c cs)
  show ?case
  proof (cases "is_space c")
    case True
    show ?thesis
    proof (cases "list_all is_space cs")
      case A: True
      with True show ?thesis
        by (simp add: lstrip_Cons rstrip_Cons lstrip_all_space lstrip_Nil rstrip_Nil)
    next
      case B: False
      with True Cons show ?thesis
        by (simp add: lstrip_Cons rstrip_Cons)
    qed
  next
    case False
    then show ?thesis by (simp add: lstrip_Cons rstrip_Cons)
  qed
qed

lemma strip_all_space: "list_all is_space s \<Longrightarrow> strip s = []"
  by (simp add: strip_def lstrip_all_space rstrip_Nil)

lemma rstrip_first_rstrip:
  "rstrip (takeWhile (\<lambda>c. c \<noteq> nl) (rstrip u)) = rstrip (takeWhile (\<lambda>c. c \<noteq> nl) u)"
proof (induction u)
  case Nil
  show ?case by (simp add: rstrip_Nil)
next
  case (Cons c cs)
  let ?f = "takeWhile (\<lambda>c. c \<noteq> nl)"
  show ?case
  proof (cases "list_all is_space (c # cs)")
    case True
    then have "list_all is_space (?f (c # cs))"
      by (auto simp: list_all_iff dest: set_takeWhileD)
    then have "rstrip (?f (c # cs)) = []"
      by (simp only: rstrip_Nil_iff)
    moreover from True have "rstrip (c # cs) = []"
      by (simp only: rstrip_Nil_iff)
    ultimately show ?thesis by (simp add: rstrip_Nil)
  next
    case False
    then have r: "rstrip (c # cs) = c # rstrip cs"
      by (simp only: rstrip_Cons if_False)
    show ?thesis
    proof (cases "c = nl")
      case True
      with r show ?thesis by simp
    next
      case N: False
      from Cons.IH have "list_all is_space (?f (rstrip cs)) \<longleftrightarrow> list_all is_space (?f cs)"
        by (metis rstrip_Nil_iff)
      with Cons.IH have "rstrip (c # ?f (rstrip cs)) = rstrip (c # ?f cs)"
        by (simp add: rstrip_Cons)
      with r N show ?thesis by simp
    qed
  qed
qed

lemma strip_first_strip:
  "strip (takeWhile (\<lambda>c. c \<noteq> nl) (strip s)) = strip (takeWhile (\<lambda>c. c \<noteq> nl) (lstrip s))"
proof -
  let ?f = "takeWhile (\<lambda>c. c \<noteq> nl)"
  have "strip (?f (strip s)) = lstrip (rstrip (?f (rstrip (lstrip s))))"
    unfolding strip_def by (simp only: strip_commute)
  also have "\<dots> = lstrip (rstrip (?f (lstrip s)))"
    by (simp only: rstrip_first_rstrip)
  also have "\<dots> = strip (?f (lstrip s))"
    unfolding strip_def by (simp only: strip_commute)
  finally show ?thesis .
qed

lemma strip_lstrip: "strip (lstrip s) = strip s"
  by (simp add: strip_def lstrip_idem)

lemma first_lstrip:
  "strip (takeWhile (\<lambda>c. c \<noteq> nl) (lstrip s)) = first_nonblank_line s"
proof (induction s rule: length_induct)
  case (1 s)
  let ?f = "takeWhile (\<lambda>c. c \<noteq> nl)"
  let ?d = "dropWhile (\<lambda>c. c \<noteq> nl)"
  have s: "s = ?f s @ ?d s" by simp
  have sp: "split_nl s = ?f s # (case ?d s of [] \<Rightarrow> [] | x # rest \<Rightarrow> split_nl rest)"
    by (rule split_nl_first)
  show ?case
  proof (cases "list_all is_space (?f s)")
    case True
    show ?thesis
    proof (cases "?d s")
      case Nil
      with s have "s = ?f s" by simp
      with True have a: "list_all is_space s" by simp
      then have "lstrip s = []" by (rule lstrip_all_space)
      moreover from sp Nil True have "first_nonblank_line s = []"
        by (simp add: first_nonblank_line_def)
      ultimately show ?thesis by (simp add: strip_def lstrip_Nil rstrip_Nil)
    next
      case (Cons x rest)
      then have x: "x = nl"
        by (metis (mono_tags, lifting) hd_dropWhile list.distinct(1) list.sel(1))
      from s Cons have s': "s = ?f s @ nl # rest" using x by simp
      have "dropWhile is_space (?f s @ nl # rest) = dropWhile is_space (nl # rest)"
        using True by (intro dropWhile_append2) (simp add: list_all_iff)
      with s' have d: "lstrip s = lstrip rest"
        by (simp add: is_space_nl lstrip_def)
      have "length rest < length s"
        using arg_cong [OF s', of length] by simp
      with 1 have ih: "strip (?f (lstrip rest)) = first_nonblank_line rest"
        by blast
      from sp Cons True have "first_nonblank_line s = first_nonblank_line rest"
        by (simp add: first_nonblank_line_def)
      with ih d show ?thesis by simp
    qed
  next
    case False
    then obtain y where y: "y \<in> set (?f s)" "\<not> is_space y"
      by (auto simp: list_all_iff)
    have "dropWhile is_space (?f s @ ?d s) = dropWhile is_space (?f s) @ ?d s"
      using y by (rule dropWhile_append1)
    then have d: "lstrip s = lstrip (?f s) @ ?d s"
      by (simp add: lstrip_def)
    have nonl: "\<forall>c \<in> set (lstrip (?f s)). c \<noteq> nl"
      unfolding lstrip_def by (metis (mono_tags, lifting) set_dropWhileD set_takeWhileD)
    have hdd: "?d s = [] \<or> hd (?d s) = nl"
      by (metis (mono_tags, lifting) hd_dropWhile)
    have "?f (lstrip (?f s) @ t) = lstrip (?f s)" if "t = [] \<or> hd t = nl" for t
    proof (cases t)
      case Nil
      with nonl show ?thesis by (simp add: takeWhile_eq_all_conv)
    next
      case (Cons x rest)
      with that have "x = nl" by simp
      with Cons nonl show ?thesis
        by (simp add: takeWhile_append2 takeWhile_eq_all_conv)
    qed
    from this [OF hdd] d have "strip (?f (lstrip s)) = strip (?f s)"
      by (simp add: strip_lstrip)
    moreover from sp False have "first_nonblank_line s = strip (?f s)"
      by (simp add: first_nonblank_line_def)
    ultimately show ?thesis by simp
  qed
qed

lemma first_line_of_strip:
  "(case split_nl (strip s) of [] \<Rightarrow> [] | l # x \<Rightarrow> strip l) = first_nonblank_line s"
  by (subst split_nl_first) (simp add: strip_first_strip first_lstrip)

text \<open>
  C8, as the specification states it: the summary is the label of the kind followed by
  the first non-empty line cut to 100 characters. The code appends \<open>...\<close> after the
  line of a function, a class and any other kind, so the summary of \<open>def f():\<close> as a
  function is \<open>Function: def f():...\<close>; it does not cut the line of an import, so a
  line of 101 characters gives a summary with all 101, where the cut leaves 100; the
  label of another kind is its \<open>title()\<close>, which raises the first letter of every word
  (\<open>Import_From:\<close>, where capitalizing gives \<open>Import_from:\<close>); and the line is not the
  first non-empty one but the first with a character other than white space, without
  the white space around it: for the text of a line of two spaces followed by the
  line \<open>  def f():  \<close> the first non-empty line is the two spaces, and the code takes
  \<open>def f():\<close>.
\<close>

theorem C8_summary_counterexample:
  "generate_summary ascii_title ''def f():'' ''function'' = ''Function: def f():...''
   \<and> spec_summary ''def f():'' ''function'' = ''Function: def f():''
   \<and> generate_summary ascii_title ''def f():'' ''function''
       \<noteq> spec_summary ''def f():'' ''function''
   \<and> generate_summary ascii_title (replicate 101 (CHR ''a'')) ''import''
       = ''Import: '' @ replicate 101 (CHR ''a'')
   \<and> spec_summary (replicate 101 (CHR ''a'')) ''import''
       = ''Import: '' @ replicate 100 (CHR ''a'')
   \<and> title_ascii ''import_from'' = Some ''Import_From''
   \<and> generate_summary ascii_title ''x'' ''import_from'' = ''Import_From: x...''
   \<and> spec_label ''import_from'' = ''Import_from:''
   \<and> spec_first_nonempty_line ''  \<newline>  def f():  '' = ''  ''
   \<and> first_nonblank_line ''  \<newline>  def f():  '' = ''def f():''
   \<and> generate_summary ascii_title ''  \<newline>  def f():  '' ''class'' = ''Class: def f():...''
   \<and> spec_summary ''  \<newline>  def f():  '' ''class'' = ''Class:   ''"
  by code_simp

text \<open>
  C8, amended: with \<open>L\<close> the first line of the text that has a character other than
  white space, stripped of the white space around it (the empty string when the text
  has none), \<open>generate_summary\<close> returns \<open>Function: \<close> followed by the first 100
  characters of \<open>L\<close> and \<open>...\<close> for the kinds function and method, \<open>Class: \<close> with
  the same for the kind class, \<open>Import: \<close> followed by the whole of \<open>L\<close> (not cut, no
  dots) for the kinds import and import_statement, and for any other kind what
  Python's \<open>str.title()\<close> returns on the kind, a colon and a space, the first 100
  characters of \<open>L\<close> and \<open>...\<close>. (The theorem holds whatever function \<open>str_title\<close>
  is.)
\<close>

theorem C8_generate_summary_shape:
  "generate_summary str_title txt kind =
     (if kind = ''function'' \<or> kind = ''method''
      then ''Function: '' @ take 100 (first_nonblank_line txt) @ ''...''
      else if kind = ''class''
      then ''Class: '' @ take 100 (first_nonblank_line txt) @ ''...''
      else if kind = ''import'' \<or> kind = ''import_statement''
      then ''Import: '' @ first_nonblank_line txt
      else str_title kind @ '': '' @ take 100 (first_nonblank_line txt) @ ''...'')"
  unfolding generate_summary_def Let_def first_line_of_strip by simp

section \<open>ChunkingPipeline: a file always yields a chunk\<close>

lemma length_overlap_step: "length (overlap_step self ls i cs) = length cs"
  by (simp add: overlap_step_def Let_def)

lemma length_fold_overlap_step: "length (fold (overlap_step self ls) is cs) = length cs"
  by (induction "is" arbitrary: cs) (simp_all add: length_overlap_step)

lemma length_add_overlap: "length (add_overlap self cs content) = length cs"
  by (simp add: add_overlap_def length_fold_overlap_step)

lemma fallback_chunking_not_Nil: "fallback_chunking self content filepath \<noteq> []"
  using tiles_Nil_iff [OF fallback_chunking_tiles [of content self filepath]] split_nl_not_Nil
  by simp

lemma fallback_chunking_empty:
  "fallback_chunking self [] filepath = [block_chunk 0 1 1 [[]]]"
  by (simp add: fallback_chunking_def)

lemma str_int_1: "str_int 1 = ''1''"
  by code_simp

lemma merge_small_chunks_not_Nil: "cs \<noteq> [] \<Longrightarrow> merge_small_chunks self cs \<noteq> []"
  by (simp add: merge_small_chunks_rec merge_rec_Nil_iff)

lemma add_overlap_not_Nil: "cs \<noteq> [] \<Longrightarrow> add_overlap self cs content \<noteq> []"
  using length_add_overlap [of self cs content] by (metis length_0_conv)

lemma chunk_file_not_Nil: "chunk_file self filepath content \<noteq> []"
proof -
  let ?nodes0 = "case parse_with_tree_sitter self content (get_language filepath) of
                   Some t \<Rightarrow> extract_nodes_with_query self t (get_language filepath)
                 | None \<Rightarrow> []"
  let ?nodes1 = "if ?nodes0 = [] then fallback_chunking self content filepath else ?nodes0"
  have "?nodes1 \<noteq> []"
    by (simp add: fallback_chunking_not_Nil)
  then have "add_overlap self (merge_small_chunks self ?nodes1) content \<noteq> []"
    by (intro add_overlap_not_Nil merge_small_chunks_not_Nil)
  then show ?thesis
    by (simp add: chunk_file_def Let_def)
qed

text \<open>
  C9: for every path and content, the empty content included, and whatever the parser
  returns, \<open>chunk_file\<close> returns a list that is not empty. The fallback segmenter always
  emits at least one chunk; for the empty content it emits the single chunk
  \<open>block_1\<close> with the empty text on lines 1 to 1. Neither \<open>_merge_small_chunks\<close> nor
  \<open>_add_overlap\<close> turns a list that is not empty into the empty list.
\<close>

theorem C9_chunk_file_not_empty:
  "chunk_file self filepath content \<noteq> []
   \<and> fallback_chunking self content filepath \<noteq> []
   \<and> fallback_chunking self [] filepath
       = [\<lparr>chunk_type = ''block'', chunk_name = ''block_1'', start_line = 1, end_line = 1,
           chunk_text = [], capture_name = ''fallback'', parser_fallback = Some True\<rparr>]
   \<and> (chunks \<noteq> [] \<longrightarrow> merge_small_chunks self chunks \<noteq> [])
   \<and> (chunks \<noteq> [] \<longrightarrow> add_overlap self chunks content \<noteq> [])"
proof -
  have m: "merge_small_chunks self cs \<noteq> []" if "cs \<noteq> []" for cs
    using that by (rule merge_small_chunks_not_Nil)
  have o: "add_overlap self cs content \<noteq> []" if "cs \<noteq> []" for cs
    using that by (rule add_overlap_not_Nil)
  have c: "chunk_file self filepath content \<noteq> []"
    by (rule chunk_file_not_Nil)
  have e: "fallback_chunking self [] filepath
       = [\<lparr>chunk_type = ''block'', chunk_name = ''block_1'', start_line = 1, end_line = 1,
           chunk_text = [], capture_name = ''fallback'', parser_fallback = Some True\<rparr>]"
    using str_int_1 by (simp add: fallback_chunking_empty block_chunk_def)
  from c e m o fallback_chunking_not_Nil show ?thesis by blast
qed

theorem C9_chunk_file_not_empty_witness:
  "[block_chunk 0 1 1 [''ab'']] \<noteq> []
   \<and> merge_small_chunks (plain_chunker 10 1 4) [block_chunk 0 1 1 [''ab'']] \<noteq> []
   \<and> add_overlap (plain_chunker 10 1 4) [block_chunk 0 1 1 [''ab'']] ''ab'' \<noteq> []
   \<and> chunk_file (plain_chunker 10 1 4) ''empty.py'' '''' \<noteq> []"
  using C9_chunk_file_not_empty [where self = "plain_chunker 10 1 4" and filepath = "''empty.py''"
      and content = "''''" and chunks = "[block_chunk 0 1 1 [''ab'']]"]
    C9_chunk_file_not_empty [where self = "plain_chunker 10 1 4" and filepath = "''empty.py''"
      and content = "''ab''" and chunks = "[block_chunk 0 1 1 [''ab'']]"]
  by simp

section \<open>OverlapInjector: the end line it reads\<close>

text \<open>
  C6 says that the slice prepended to chunk \<open>i\<close> is cut from the previous chunk's
  end line as it was before any overlap. The loop changes the dicts in place, so when
  it reaches chunk \<open>i\<close> the previous chunk's \<open>end_line\<close> is already the one that
  iteration \<open>i - 1\<close> stored. On three one-line chunks with \<open>overlap_tokens = 4\<close> (one
  line of overlap) the second chunk gets its own line \<open>bbbb\<close> prepended and keeps
  \<open>start_line = 2\<close>; the tail of the first chunk as the normalizer left it is \<open>aaaa\<close>.
\<close>

theorem C6_overlap_reads_changed_end_line:
  "(let self = plain_chunker 1 0 4;
        content = ''aaaa\<newline>bbbb\<newline>cccc'';
        lines = split_nl content;
        pre = merge_small_chunks self (fallback_chunking self content ''a.txt'');
        out = add_overlap self pre content
    in map (\<lambda>c. (start_line c, end_line c, chunk_text c)) pre
         = [(1, 1, ''aaaa''), (2, 2, ''bbbb''), (3, 3, ''cccc'')]
       \<and> out = chunk_file self ''a.txt'' content
       \<and> map (\<lambda>c. (start_line c, end_line c, chunk_text c)) out
         = [(1, 2, ''aaaa\<newline>bbbb''), (2, 3, ''bbbb\<newline>bbbb\<newline>cccc''),
            (3, 3, ''cccc\<newline>cccc'')]
       \<and> py_slice lines (max 0 (end_line (pre ! 0) - overlap_tokens self div 4)) (end_line (pre ! 0))
         = [''aaaa'']
       \<and> py_slice lines (max 0 (end_line (out ! 0) - overlap_tokens self div 4)) (end_line (out ! 0))
         = [''bbbb''])"
  by code_simp

section \<open>RepoChunker: a readable file is never counted as failed\<close>

lemma stats_write_chunk:
  "parsed_files (stats (write_chunk h ttl fp lang lm c s)) = parsed_files (stats s)
   \<and> failed_files (stats (write_chunk h ttl fp lang lm c s)) = failed_files (stats s)
   \<and> total_files (stats (write_chunk h ttl fp lang lm c s)) = total_files (stats s)
   \<and> total_chunks (stats (write_chunk h ttl fp lang lm c s)) = total_chunks (stats s) + 1
   \<and> length (chunks_jsonl (write_chunk h ttl fp lang lm c s)) = length (chunks_jsonl s) + 1"
  by (simp add: write_chunk_def Let_def)

lemma stats_write_chunks:
  "parsed_files (stats (write_chunks h ttl s fp cs lang lm)) = parsed_files (stats s)
   \<and> failed_files (stats (write_chunks h ttl s fp cs lang lm)) = failed_files (stats s)
   \<and> total_files (stats (write_chunks h ttl s fp cs lang lm)) = total_files (stats s)
   \<and> total_chunks (stats (write_chunks h ttl s fp cs lang lm)) = total_chunks (stats s) + int (length cs)
   \<and> length (chunks_jsonl (write_chunks h ttl s fp cs lang lm)) = length (chunks_jsonl s) + length cs"
  unfolding write_chunks_def
  by (induction cs arbitrary: s) (simp_all add: stats_write_chunk)

lemma process_file_readable:
  "parsed_files (stats (process_file h ttl s fp rp (Some (content, lm)))) = parsed_files (stats s) + 1
   \<and> failed_files (stats (process_file h ttl s fp rp (Some (content, lm)))) = failed_files (stats s)
   \<and> length (chunks_jsonl (process_file h ttl s fp rp (Some (content, lm))))
       = length (chunks_jsonl s) + length (chunk_file (chunker s) fp content)
   \<and> 0 < length (chunk_file (chunker s) fp content)"
proof -
  have ne: "chunk_file (chunker s) fp content \<noteq> []"
    by (rule chunk_file_not_Nil)
  then show ?thesis
    by (simp add: process_file_def Let_def stats_write_chunks)
qed

text \<open>
  C5 says that a file from which no span can be produced, an empty file in particular,
  is marked failed and yields no chunk. \<open>process_file\<close> has that branch (no chunks:
  \<open>failed_files\<close> is incremented and nothing is written), but \<open>chunk_file\<close> never
  returns the empty list. For the empty file, with the default configuration, the run
  counts the file as parsed, not as failed, and writes one record, a block on lines 1
  to 1 with the empty text.
\<close>

theorem C5_empty_file_is_counted_as_parsed:
  "(let s = process_file sha1_hexdigest str_title (new_RepoChunker (plain_chunker 25000 50 1000))
              ''/repo/empty.txt'' ''empty.txt'' (Some ('''', last_modified))
    in total_files (stats s) = 1
       \<and> parsed_files (stats s) = 1
       \<and> failed_files (stats s) = 0
       \<and> total_chunks (stats s) = 1
       \<and> chunks_by_language (stats s) ''unknown'' = Some 1
       \<and> map (\<lambda>d. (cd_node_type d, cd_start_line d, cd_end_line d, cd_text d, cd_tokens_estimate d))
            (chunks_jsonl s) = [(''block'', 1, 1, '''', 0)])"
proof -
  have c: "chunk_file (plain_chunker 25000 50 1000) ''/repo/empty.txt'' ''''
             = [block_chunk 0 1 1 ['''']]"
    by code_simp
  have l: "get_language ''/repo/empty.txt'' = ''unknown''"
    by code_simp
  have t: "token_estimator (plain_chunker 25000 50 1000) = \<lparr>encoder = None\<rparr>"
    by (simp add: plain_chunker_def)
  show ?thesis
    by (simp add: process_file_def Let_def c l t new_RepoChunker_def write_chunks_def
        write_chunk_def block_chunk_def estimate_tokens_def)
qed

end
